theory Spec2Isabelle
  imports Complex_Main
begin

section \<open>Confidence constraints (docs/ml-pipeline.md, constrain_confidence)\<close>

text \<open>
  The function is given first on the reals: the arithmetic of the source on a number,
  read exactly, without binary rounding error. The infinities and NaN follow below.

  \<^verbatim>\<open>round(x, 2)\<close> on a Python 3 float rounds to the nearest multiple of 1/100 and
  resolves an exact tie towards the even neighbour.
\<close>

definition MAX_CONFIDENCE :: real where
  "MAX_CONFIDENCE = 0.80"

definition round_half_even :: "real \<Rightarrow> int" where
  "round_half_even y =
     (let f = \<lfloor>y\<rfloor>; d = y - of_int f
      in if d < 1 / 2 then f
         else if 1 / 2 < d then f + 1
         else if even f then f else f + 1)"

definition py_round2 :: "real \<Rightarrow> real" where
  "py_round2 x = of_int (round_half_even (x * 100)) / 100"

definition constrain_confidence :: "real \<Rightarrow> real" where
  "constrain_confidence raw_confidence =
     (let capped = min raw_confidence MAX_CONFIDENCE;
          capped = (if raw_confidence > 0.90 then capped * 0.95 else capped)
      in py_round2 capped)"








section \<open>Temporal pattern tracker (docs/ml-pipeline.md, detect_trend and is_cyclical)\<close>

text \<open>
  The numpy helpers the source calls. \<^verbatim>\<open>np.correlate(a, v, mode='full')\<close> returns the
  \<open>length a + length v - 1\<close> sliding products \<open>\<Sum>n. a[n + k] * v[n]\<close> for the lags
  \<open>k = -(length v - 1), ..., length a - 1\<close>, in that order.
\<close>

definition np_mean :: "real list \<Rightarrow> real" where
  "np_mean xs = sum_list xs / real (length xs)"

definition np_arange :: "nat \<Rightarrow> real list" where
  "np_arange n = map real [0..<n]"

definition np_correlate_full :: "real list \<Rightarrow> real list \<Rightarrow> real list" where
  "np_correlate_full a v =
     map (\<lambda>j. \<Sum>n \<leftarrow> [0..<length v].
                 (let i = int n + int j - (int (length v) - 1)
                  in if 0 \<le> i \<and> i < int (length a) then a ! nat i * v ! n else 0))
         [0..<length a + length v - 1]"

text \<open>
  \<^verbatim>\<open>scipy.stats.linregress\<close>: least squares of \<open>y\<close> against \<open>x\<close>. The slope, the
  intercept and the correlation coefficient are the closed forms scipy computes (with
  \<open>r = 0\<close> when either variance vanishes, and \<open>r\<close> clipped to \<open>[-1, 1]\<close>). The two-sided
  p-value comes from the Student t distribution, which is not modelled: it is the
  parameter \<open>pvalue\<close>. The standard error is never read by the caller and is left out.
\<close>

record linregress_result =
  slope :: real
  intercept :: real
  r_value :: real
  p_value :: real

definition linregress ::
  "(real list \<Rightarrow> real list \<Rightarrow> real) \<Rightarrow> real list \<Rightarrow> real list \<Rightarrow> linregress_result" where
  "linregress pvalue x y =
     (let n = real (length x);
          xmean = np_mean x; ymean = np_mean y;
          ssxm = (\<Sum>a \<leftarrow> x. (a - xmean) * (a - xmean)) / n;
          ssym = (\<Sum>b \<leftarrow> y. (b - ymean) * (b - ymean)) / n;
          ssxym = (\<Sum>(a, b) \<leftarrow> zip x y. (a - xmean) * (b - ymean)) / n;
          r = (if ssxm = 0 \<or> ssym = 0 then 0
               else max (- 1) (min 1 (ssxym / sqrt (ssxm * ssym))));
          sl = ssxym / ssxm
      in \<lparr>slope = sl, intercept = ymean - sl * xmean, r_value = r, p_value = pvalue x y\<rparr>)"

text \<open>
  \<^verbatim>\<open>is_cyclical(values, min_periods=2)\<close>; \<open>min_periods\<close> is never read. For a constant
  series \<open>autocorr[0]\<close> is zero, numpy's division yields NaN, and the comparison of NaN with
  0.5 is false: the guard \<open>a0 \<noteq> 0\<close> writes that out.
\<close>

definition is_cyclical :: "real list \<Rightarrow> bool" where
  "is_cyclical values =
     (if length values < 14 then False
      else
        let centered = map (\<lambda>v. v - np_mean values) values;
            autocorr = np_correlate_full centered centered;
            autocorr = drop (length autocorr div 2) autocorr;
            a0 = autocorr ! 0;
            weekly_lag = 7
        in if length autocorr > weekly_lag \<and> a0 \<noteq> 0 \<and> autocorr ! weekly_lag / a0 > 0.5
           then True else False)"

text \<open>
  \<^verbatim>\<open>detect_trend(values, dates)\<close> returns the triple (direction, slope, r squared);
  \<open>dates\<close> is never read.
\<close>

definition detect_trend ::
  "(real list \<Rightarrow> real list \<Rightarrow> real) \<Rightarrow> real list \<Rightarrow> 'd list \<Rightarrow> string \<times> real \<times> real" where
  "detect_trend pvalue values dates =
     (if length values < 7 then (''insufficient_data'', 0, 0)
      else
        let x = np_arange (length values);
            lr = linregress pvalue x values
        in if is_cyclical values then (''cyclical'', slope lr, (r_value lr)\<^sup>2)
           else if p_value lr > 0.05 then (''stable'', slope lr, (r_value lr)\<^sup>2)
           else if slope lr > 0.01 then (''increasing'', slope lr, (r_value lr)\<^sup>2)
           else if slope lr < - 0.01 then (''decreasing'', slope lr, (r_value lr)\<^sup>2)
           else (''stable'', slope lr, (r_value lr)\<^sup>2))"

text \<open>The 14-point alternating series of the trend scenario, and the same series mean-centred.\<close>

definition alternating_series :: "real list" where
  "alternating_series =
     [0.5, 0.1, 0.5, 0.1, 0.5, 0.1, 0.5, 0.1, 0.5, 0.1, 0.5, 0.1, 0.5, 0.1]"

definition alternating_centered :: "real list" where
  "alternating_centered =
     [1/5, -1/5, 1/5, -1/5, 1/5, -1/5, 1/5, -1/5, 1/5, -1/5, 1/5, -1/5, 1/5, -1/5]"

section \<open>Certainty scoring (docs/ml-pipeline.md, calculate_certainty)\<close>

text \<open>
  A text is a list of 8-bit characters (code points below 256). \<^verbatim>\<open>str.lower\<close> maps
  each upper-case letter of that range to its lower-case letter; \<^verbatim>\<open>str.split()\<close> cuts at runs of whitespace and
  yields no empty word.
\<close>

datatype py_error = ZeroDivisionError

definition py_truediv :: "real \<Rightarrow> real \<Rightarrow> py_error + real" where
  "py_truediv a b = (if b = 0 then Inl ZeroDivisionError else Inr (a / b))"

definition upper_letters :: string where
  "upper_letters = ''ABCDEFGHIJKLMNOPQRSTUVWXYZ'' @
     [CHR 0xC0, CHR 0xC1, CHR 0xC2, CHR 0xC3, CHR 0xC4, CHR 0xC5, CHR 0xC6, CHR 0xC7,
      CHR 0xC8, CHR 0xC9, CHR 0xCA, CHR 0xCB, CHR 0xCC, CHR 0xCD, CHR 0xCE, CHR 0xCF,
      CHR 0xD0, CHR 0xD1, CHR 0xD2, CHR 0xD3, CHR 0xD4, CHR 0xD5, CHR 0xD6,
      CHR 0xD8, CHR 0xD9, CHR 0xDA, CHR 0xDB, CHR 0xDC, CHR 0xDD, CHR 0xDE]"

definition lower_letters :: string where
  "lower_letters = ''abcdefghijklmnopqrstuvwxyz'' @
     [CHR 0xE0, CHR 0xE1, CHR 0xE2, CHR 0xE3, CHR 0xE4, CHR 0xE5, CHR 0xE6, CHR 0xE7,
      CHR 0xE8, CHR 0xE9, CHR 0xEA, CHR 0xEB, CHR 0xEC, CHR 0xED, CHR 0xEE, CHR 0xEF,
      CHR 0xF0, CHR 0xF1, CHR 0xF2, CHR 0xF3, CHR 0xF4, CHR 0xF5, CHR 0xF6,
      CHR 0xF8, CHR 0xF9, CHR 0xFA, CHR 0xFB, CHR 0xFC, CHR 0xFD, CHR 0xFE]"

definition py_lower_char :: "char \<Rightarrow> char" where
  "py_lower_char c =
     (case map_of (zip upper_letters lower_letters) c of Some l \<Rightarrow> l | None \<Rightarrow> c)"

definition py_lower :: "string \<Rightarrow> string" where
  "py_lower s = map py_lower_char s"

definition py_isspace :: "char \<Rightarrow> bool" where
  "py_isspace c =
     (let n = (of_char c :: nat)
      in (9 \<le> n \<and> n \<le> 13) \<or> (28 \<le> n \<and> n \<le> 32) \<or> n = 133 \<or> n = 160)"

fun py_split_from :: "string \<Rightarrow> string \<Rightarrow> string list" where
  "py_split_from cur [] = (if cur = [] then [] else [rev cur])"
| "py_split_from cur (c # cs) =
     (if py_isspace c
      then (if cur = [] then py_split_from [] cs else rev cur # py_split_from [] cs)
      else py_split_from (c # cur) cs)"

definition py_split :: "string \<Rightarrow> string list" where
  "py_split s = py_split_from [] s"

definition HEDGING_WORDS :: "string list" where
  "HEDGING_WORDS =
     [''might'', ''maybe'', ''perhaps'', ''possibly'', ''probably'',
      ''could'', ''would'', ''should'', ''seem'', ''appear'',
      ''guess'', ''think'', ''believe'', ''feel'', ''suppose'']"

definition CERTAINTY_WORDS :: "string list" where
  "CERTAINTY_WORDS =
     [''definitely'', ''certainly'', ''absolutely'', ''always'', ''never'',
      ''must'', ''will'', ''know'', ''sure'', ''certain'']"

definition calculate_certainty :: "string \<Rightarrow> py_error + real" where
  "calculate_certainty text =
     (let words = py_split (py_lower text);
          hedging = (\<Sum>w \<leftarrow> filter (\<lambda>w. w \<in> set HEDGING_WORDS) words. (1::nat));
          certain = (\<Sum>w \<leftarrow> filter (\<lambda>w. w \<in> set CERTAINTY_WORDS) words. (1::nat));
          total = hedging + certain
      in if total = 0 then Inr 0.5
         else py_truediv (real certain) (real total))"

section \<open>Registration page (frontend, RegisterPage: passwordChecks and handleSubmit)\<close>

text \<open>
  The component state, the five password checks computed at render, and the submit
  handler. A JavaScript string is a list of characters; the three regular expressions
  test for an ASCII lower-case letter, an ASCII upper-case letter and an ASCII digit.
  The handler's effects on the outside (the API calls and the navigation) are returned
  as a trace, in the order they happen. A rejected promise is \<open>Inl\<close> of the error object,
  whose \<open>detail\<close> may be undefined.
\<close>

record register_page =
  email :: string
  password :: string
  confirmPassword :: string
  showPassword :: bool
  isLoading :: bool
  error :: string

record password_checks =
  check_length :: bool
  check_lowercase :: bool
  check_uppercase :: bool
  check_number :: bool
  check_match :: bool

record api_error =
  detail :: "string option"

record api_client =
  api_register :: "string \<Rightarrow> string \<Rightarrow> api_error + unit"
  api_login :: "string \<Rightarrow> string \<Rightarrow> api_error + unit"

datatype effect = Register string string | Login string string | RouterPush string

definition in_range :: "nat \<Rightarrow> nat \<Rightarrow> char \<Rightarrow> bool" where
  "in_range lo hi c = (lo \<le> of_char c \<and> (of_char c :: nat) \<le> hi)"

definition passwordChecks :: "register_page \<Rightarrow> password_checks" where
  "passwordChecks s =
     \<lparr>check_length = (length (password s) \<ge> 8),
      check_lowercase = list_ex (in_range 97 122) (password s),
      check_uppercase = list_ex (in_range 65 90) (password s),
      check_number = list_ex (in_range 48 57) (password s),
      check_match = (password s = confirmPassword s \<and> length (confirmPassword s) > 0)\<rparr>"

definition isPasswordValid :: "register_page \<Rightarrow> bool" where
  "isPasswordValid s =
     (let c = passwordChecks s
      in list_all (\<lambda>b. b)
           [check_length c, check_lowercase c, check_uppercase c, check_number c, check_match c])"

definition error_message :: "api_error \<Rightarrow> string" where
  "error_message err =
     (case detail err of
        None \<Rightarrow> ''Failed to create account. Please try again.''
      | Some d \<Rightarrow> if d = [] then ''Failed to create account. Please try again.'' else d)"

definition handleSubmit :: "api_client \<Rightarrow> register_page \<Rightarrow> register_page \<times> effect list" where
  "handleSubmit api s =
     (let s1 = s\<lparr>error := []\<rparr>
      in if \<not> isPasswordValid s
         then (s1\<lparr>error := ''Please meet all password requirements''\<rparr>, [])
         else
           let s2 = s1\<lparr>isLoading := True\<rparr>
           in case api_register api (email s) (password s) of
                Inl err \<Rightarrow>
                  (s2\<lparr>error := error_message err, isLoading := False\<rparr>,
                   [Register (email s) (password s)])
              | Inr _ \<Rightarrow>
                  (case api_login api (email s) (password s) of
                     Inl err \<Rightarrow>
                       (s2\<lparr>error := error_message err, isLoading := False\<rparr>,
                        [Register (email s) (password s), Login (email s) (password s)])
                   | Inr _ \<Rightarrow>
                       (s2\<lparr>isLoading := False\<rparr>,
                        [Register (email s) (password s), Login (email s) (password s),
                         RouterPush ''/''])))"

section \<open>Reflection rows and their constraints (schemas/schema.sql)\<close>

text \<open>
  A row of the \<open>reflections\<close> table. Identifiers are numbers, timestamps are reals counted
  in days, \<open>date_range_start\<close> and \<open>date_range_end\<close> are day numbers; the JSON metadata
  column is represented by the list of concepts used, each with its relevance score.
\<close>

record reflection =
  refl_id :: nat
  user_id :: nat
  content :: string
  concepts_used :: "(nat \<times> real) list"
  entry_ids :: "nat list"
  date_range_start :: int
  date_range_end :: int
  confidence_score :: real
  created_at :: real
  dismissed_at :: "real option"

text \<open>
  The two CHECK constraints of the table. SQL's \<open>array_length(a, 1)\<close> is NULL for an
  empty array, and a CHECK whose condition is NULL is satisfied.
\<close>

definition array_length :: "'a list \<Rightarrow> nat option" where
  "array_length a = (if a = [] then None else Some (length a))"

definition check_confidence_score :: "reflection \<Rightarrow> bool" where
  "check_confidence_score r = (confidence_score r \<le> 0.80)"

definition check_min_entries :: "reflection \<Rightarrow> bool" where
  "check_min_entries r = (case array_length (entry_ids r) of None \<Rightarrow> True | Some n \<Rightarrow> n \<ge> 3)"

section \<open>Concept Retriever\<close>

text \<open>
  A row of the \<open>concepts\<close> table (schemas/schema.sql), with the columns the retriever
  reads; the category is one of the three the table's constraint allows.
\<close>

datatype category = psychology | philosophy | research

record concept =
  concept_id :: nat
  concept_name :: string
  concept_category :: category
  description :: string
  citation :: string
  embedding :: "real list"

text \<open>
  Modelled from the spec: the Concept Retriever has no code in the repository. Cosine
  similarity of the query with each concept of the corpus (restricted to the category
  filter when one is given); the concepts below the minimum similarity floor are dropped;
  the rest are ranked by decreasing similarity, ties in corpus order, deduplicated by
  concept id, and the first \<open>k\<close> are returned, each with its similarity as relevance score.
\<close>

definition dot :: "real list \<Rightarrow> real list \<Rightarrow> real" where
  "dot a b = (\<Sum>(x, y) \<leftarrow> zip a b. x * y)"

definition cosine_similarity :: "real list \<Rightarrow> real list \<Rightarrow> real" where
  "cosine_similarity a b = dot a b / (sqrt (dot a a) * sqrt (dot b b))"

fun dedup_by_id :: "nat list \<Rightarrow> (nat \<times> real) list \<Rightarrow> (nat \<times> real) list" where
  "dedup_by_id seen [] = []"
| "dedup_by_id seen ((i, s) # xs) =
     (if i \<in> set seen then dedup_by_id seen xs else (i, s) # dedup_by_id (i # seen) xs)"

definition retrieve ::
  "real \<Rightarrow> nat \<Rightarrow> concept list \<Rightarrow> category option \<Rightarrow> real list \<Rightarrow> (nat \<times> real) list" where
  "retrieve min_similarity k corpus category_filter query =
     (let candidates =
            filter (\<lambda>c. case category_filter of None \<Rightarrow> True
                                               | Some g \<Rightarrow> concept_category c = g) corpus;
          scored = map (\<lambda>c. (concept_id c, cosine_similarity query (embedding c))) candidates;
          cleared = filter (\<lambda>(i, s). min_similarity \<le> s) scored;
          ranked = sort_key (\<lambda>(i, s). - s) cleared
      in take k (dedup_by_id [] ranked))"

section \<open>Policy Engine\<close>

datatype rejection = insufficient_evidence | rate_limited | no_grounding | policy_violation

text \<open>
  Modelled from the spec: the Policy Engine has no code in the repository. Step 1,
  eligibility: at least 3 contributing entries spanning at least 7 days, else
  \<open>insufficient_evidence\<close>.
\<close>

definition eligibility :: "nat list \<Rightarrow> nat \<Rightarrow> rejection + unit" where
  "eligibility contributing_entries span_days =
     (if length contributing_entries \<ge> 3 \<and> span_days \<ge> 7 then Inr ()
      else Inl insufficient_evidence)"

text \<open>
  Modelled from the spec: step 2, the rate limit. The accepted reflections of a user
  created within the 7 days that end now are counted, dismissed or not; two or more
  reject the candidate with \<open>rate_limited\<close>.
\<close>

definition accepted_since :: "reflection list \<Rightarrow> nat \<Rightarrow> real \<Rightarrow> nat" where
  "accepted_since rs u t = length (filter (\<lambda>r. user_id r = u \<and> t < created_at r) rs)"

definition rate_limit :: "reflection list \<Rightarrow> nat \<Rightarrow> real \<Rightarrow> rejection + unit" where
  "rate_limit rs u now =
     (if accepted_since rs u (now - 7) \<ge> 2 then Inl rate_limited else Inr ())"

text \<open>
  Modelled from the spec: step 4, the language-form check. The content must contain a
  phrase of the allowed hedging lexicon and no string of the disallowed lexicon.
\<close>

fun starts_with :: "string \<Rightarrow> string \<Rightarrow> bool" where
  "starts_with [] s = True"
| "starts_with (p # ps) [] = False"
| "starts_with (p # ps) (c # cs) = (p = c \<and> starts_with ps cs)"

fun contains :: "string \<Rightarrow> string \<Rightarrow> bool" where
  "contains p [] = (p = [])"
| "contains p (c # cs) = (starts_with p (c # cs) \<or> contains p cs)"

definition language_form :: "string list \<Rightarrow> string list \<Rightarrow> string \<Rightarrow> rejection + unit" where
  "language_form allowed disallowed text =
     (if list_ex (\<lambda>h. contains h text) allowed \<and> \<not> list_ex (\<lambda>d. contains d text) disallowed
      then Inr () else Inl policy_violation)"

text \<open>
  Modelled from the spec: steps 2 to 4 in order, on a composed candidate; step 3 is the
  confidence transform \<open>constrain_confidence\<close> above. The result is the first rejection,
  or the final confidence.
\<close>

definition policy_check ::
  "string list \<Rightarrow> string list \<Rightarrow> reflection list \<Rightarrow> nat \<Rightarrow> real \<Rightarrow> real \<Rightarrow> string
     \<Rightarrow> rejection + real" where
  "policy_check allowed disallowed rs u now raw_confidence text =
     (case rate_limit rs u now of
        Inl reason \<Rightarrow> Inl reason
      | Inr _ \<Rightarrow>
          let final_confidence = constrain_confidence raw_confidence
          in case language_form allowed disallowed text of
               Inl reason \<Rightarrow> Inl reason
             | Inr _ \<Rightarrow> Inr final_confidence)"

section \<open>Reflection Synthesizer\<close>

text \<open>
  Modelled from the spec: the AuditTrace entity and the persisted state, which the
  repository's code does not define. An audit trace names its reflection and records the
  generation parameters, the reasoning steps and the component versions; the store holds
  the reflections and the audit traces.
\<close>

record audit_trace =
  trace_reflection_id :: nat
  generation_params :: "real \<times> nat"
  reasoning_steps :: "string list"
  model_versions :: "(string \<times> string) list"

record store =
  reflections :: "reflection list"
  audit_traces :: "audit_trace list"

definition empty_store :: store where
  "empty_store = \<lparr>reflections = [], audit_traces = []\<rparr>"

text \<open>
  Modelled from the spec: what a run collects for its window, which no code of the
  repository defines: the contributing entries and the days they span, the query
  embedding built from the strongest pattern, the optional category filter and the raw
  confidence.
\<close>

record analysis_input =
  contributing_entries :: "nat list"
  span_days :: nat
  window_start :: int
  window_end :: int
  query_embedding :: "real list"
  category_filter :: "category option"
  raw_confidence :: real

text \<open>
  Modelled from the spec: the fixed parts of a deployment, none of which the repository
  gives a value: the concept corpus, the similarity floor, \<open>k\<close>, the two lexicons, the
  template that composes the prose, and the component versions.
\<close>

record deployment =
  corpus :: "concept list"
  min_similarity :: real
  top_k :: nat
  allowed_lexicon :: "string list"
  disallowed_lexicon :: "string list"
  compose :: "analysis_input \<Rightarrow> (nat \<times> real) list \<Rightarrow> string"
  versions :: "(string \<times> string) list"

text \<open>
  Modelled from the spec: the states of a run, \<open>Collecting\<close>, \<open>Eligible\<close> or
  \<open>Ineligible\<close>, \<open>Retrieving\<close>, \<open>Composing\<close>, \<open>PolicyChecked\<close>, and \<open>Emitted\<close> or
  \<open>Rejected\<close> with its reason, and what a run holds in memory between transitions.
\<close>

datatype phase =
  Collecting | Eligible | Ineligible | Retrieving | Composing | PolicyChecked
  | Emitted | Rejected rejection

record run =
  phase :: phase
  run_user :: nat
  run_now :: real
  run_input :: analysis_input
  retrieved :: "(nat \<times> real) list"
  draft :: string
  steps_log :: "string list"

definition start_run :: "nat \<Rightarrow> real \<Rightarrow> analysis_input \<Rightarrow> run" where
  "start_run u now inp =
     \<lparr>phase = Collecting, run_user = u, run_now = now, run_input = inp,
      retrieved = [], draft = [], steps_log = []\<rparr>"

text \<open>
  Modelled from the spec: the Emitted transition. The Reflection and its AuditTrace are
  written in one update of the store; the new id is the number of rows, which is fresh
  because rows are never deleted.
\<close>

definition persist :: "deployment \<Rightarrow> store \<Rightarrow> run \<Rightarrow> real \<Rightarrow> store" where
  "persist d st r final_confidence =
     (let new_id = length (reflections st)
      in \<lparr>reflections = reflections st @
             [\<lparr>refl_id = new_id, user_id = run_user r, content = draft r,
               concepts_used = retrieved r,
               entry_ids = contributing_entries (run_input r),
               date_range_start = window_start (run_input r),
               date_range_end = window_end (run_input r),
               confidence_score = final_confidence,
               created_at = run_now r, dismissed_at = None\<rparr>],
          audit_traces = audit_traces st @
             [\<lparr>trace_reflection_id = new_id,
               generation_params = (min_similarity d, top_k d),
               reasoning_steps = steps_log r,
               model_versions = versions d\<rparr>]\<rparr>)"

text \<open>
  Modelled from the spec: the Synthesizer's state machine has no code in the repository.
  One transition of a run: the work of the state the run is in, and the move to the next
  state. Only the transition into \<open>Emitted\<close> touches the store; the terminal states
  \<open>Ineligible\<close>, \<open>Emitted\<close> and \<open>Rejected\<close> do nothing.
\<close>

definition synth_step :: "deployment \<Rightarrow> store \<times> run \<Rightarrow> store \<times> run" where
  "synth_step d sr =
     (let st = fst sr; r = snd sr; inp = run_input r
      in case phase r of
           Collecting \<Rightarrow>
             (case eligibility (contributing_entries inp) (span_days inp) of
                Inl _ \<Rightarrow> (st, r\<lparr>phase := Ineligible\<rparr>)
              | Inr _ \<Rightarrow> (st, r\<lparr>phase := Eligible, steps_log := steps_log r @ [''eligible'']\<rparr>))
         | Eligible \<Rightarrow> (st, r\<lparr>phase := Retrieving\<rparr>)
         | Retrieving \<Rightarrow>
             (let cs = retrieve (min_similarity d) (top_k d) (corpus d)
                         (category_filter inp) (query_embedding inp)
              in if cs = [] then (st, r\<lparr>phase := Rejected no_grounding\<rparr>)
                 else (st, r\<lparr>phase := Composing, retrieved := cs,
                             steps_log := steps_log r @ [''retrieved'']\<rparr>))
         | Composing \<Rightarrow>
             (st, r\<lparr>phase := PolicyChecked, draft := compose d inp (retrieved r),
                    steps_log := steps_log r @ [''composed'']\<rparr>)
         | PolicyChecked \<Rightarrow>
             (case policy_check (allowed_lexicon d) (disallowed_lexicon d) (reflections st)
                     (run_user r) (run_now r) (raw_confidence inp) (draft r) of
                Inl reason \<Rightarrow> (st, r\<lparr>phase := Rejected reason\<rparr>)
              | Inr final_confidence \<Rightarrow>
                  (persist d st (r\<lparr>steps_log := steps_log r @ [''policy passed'']\<rparr>)
                     final_confidence,
                   r\<lparr>phase := Emitted, steps_log := steps_log r @ [''policy passed'']\<rparr>))
         | _ \<Rightarrow> (st, r))"

text \<open>
  Modelled from the spec: a run is its transitions in sequence, as one unit of work. A
  run that is cancelled between steps has made only the first \<open>n\<close> transitions; five
  transitions reach a terminal state.
\<close>

fun run_steps :: "deployment \<Rightarrow> nat \<Rightarrow> store \<times> run \<Rightarrow> store \<times> run" where
  "run_steps d 0 sr = sr"
| "run_steps d (Suc n) sr = run_steps d n (synth_step d sr)"

definition generateReflection ::
  "deployment \<Rightarrow> store \<Rightarrow> nat \<Rightarrow> real \<Rightarrow> analysis_input \<Rightarrow> store \<times> run" where
  "generateReflection d st u now inp = run_steps d 5 (st, start_run u now inp)"

text \<open>
  Modelled from the spec: dismissal marks the caller's own reflection and deletes
  nothing; an unknown id, or one of another user, is \<open>NotFound\<close>.
\<close>

datatype not_found = NotFound

definition dismissReflection :: "store \<Rightarrow> nat \<Rightarrow> nat \<Rightarrow> real \<Rightarrow> not_found + store" where
  "dismissReflection st u rid now =
     (if list_ex (\<lambda>r. refl_id r = rid \<and> user_id r = u) (reflections st)
      then Inr (st\<lparr>reflections :=
                    map (\<lambda>r. if refl_id r = rid \<and> user_id r = u
                              then r\<lparr>dismissed_at := Some now\<rparr> else r)
                        (reflections st)\<rparr>)
      else Inl NotFound)"

text \<open>
  Modelled from the spec: the operations that reach the store, a run of a user, complete
  or cancelled after some transitions, and a dismissal. A persisted state is reachable
  when a sequence of these operations leads to it from the empty store.
\<close>

datatype operation =
  Generate nat real analysis_input
  | Cancelled nat real analysis_input nat
  | Dismiss nat nat real

fun apply_operation :: "deployment \<Rightarrow> store \<Rightarrow> operation \<Rightarrow> store" where
  "apply_operation d st (Generate u now inp) = fst (generateReflection d st u now inp)"
| "apply_operation d st (Cancelled u now inp n) = fst (run_steps d n (st, start_run u now inp))"
| "apply_operation d st (Dismiss u rid now) =
     (case dismissReflection st u rid now of Inl _ \<Rightarrow> st | Inr st' \<Rightarrow> st')"

fun run_operations :: "deployment \<Rightarrow> store \<Rightarrow> operation list \<Rightarrow> store" where
  "run_operations d st [] = st"
| "run_operations d st (op # ops) = run_operations d (apply_operation d st op) ops"

text \<open>
  Modelled from the spec: a rolling 7-day window is the 7 days that start at any time \<open>w\<close>;
  the count is of the accepted reflections of a user created in it.
\<close>

definition accepted_in_window :: "reflection list \<Rightarrow> nat \<Rightarrow> real \<Rightarrow> nat" where
  "accepted_in_window rs u w =
     length (filter (\<lambda>r. user_id r = u \<and> w \<le> created_at r \<and> created_at r < w + 7) rs)"

text \<open>
  The invariant of a run after any number of transitions from \<open>start_run\<close> on the
  store \<open>st0\<close>. Past the gate the input was eligible; from
  \<open>Composing\<close> on the retrieval was not empty; in \<open>Emitted\<close> the policy check passed on
  the store the run started from and the store is that one with the run persisted; in
  every other state the store is untouched.
\<close>

definition run_invariant ::
  "deployment \<Rightarrow> store \<Rightarrow> nat \<Rightarrow> real \<Rightarrow> analysis_input \<Rightarrow> store \<times> run \<Rightarrow> bool" where
  "run_invariant d st0 u now inp sr =
     (run_user (snd sr) = u \<and> run_now (snd sr) = now \<and> run_input (snd sr) = inp
      \<and> (phase (snd sr) \<noteq> Collecting \<and> phase (snd sr) \<noteq> Ineligible \<longrightarrow>
           eligibility (contributing_entries inp) (span_days inp) = Inr ())
      \<and> (phase (snd sr) = Composing \<or> phase (snd sr) = PolicyChecked \<or> phase (snd sr) = Emitted \<longrightarrow>
           retrieved (snd sr) \<noteq> []
           \<and> retrieved (snd sr) = retrieve (min_similarity d) (top_k d) (corpus d)
                                    (category_filter inp) (query_embedding inp))
      \<and> (phase (snd sr) = Emitted \<longrightarrow>
           (\<exists>c. policy_check (allowed_lexicon d) (disallowed_lexicon d) (reflections st0)
                   u now (raw_confidence inp) (draft (snd sr)) = Inr c
                \<and> fst sr = persist d st0 (snd sr) c))
      \<and> (phase (snd sr) \<noteq> Emitted \<longrightarrow> fst sr = st0))"

section \<open>A worked scenario\<close>

text \<open>
  A small deployment on which the definitions above are evaluated: a corpus of two
  concepts with orthogonal embeddings, an eligible input whose query matches the first
  concept, the same input with a query that matches neither, and the store that two
  accepted runs of user 1 at days 0 and 1 leave behind.
\<close>

definition demo_corpus :: "concept list" where
  "demo_corpus =
     [\<lparr>concept_id = 0, concept_name = ''Intolerance of Uncertainty'',
       concept_category = psychology, description = ''cognitive psychology'',
       citation = ''Carleton et al. (2012)'', embedding = [1, 0]\<rparr>,
      \<lparr>concept_id = 1, concept_name = ''Stoicism'',
       concept_category = philosophy, description = ''philosophical framework'',
       citation = ''Stoic Philosophy (Marcus Aurelius)'', embedding = [0, 1]\<rparr>]"

definition demo_compose :: "analysis_input \<Rightarrow> (nat \<times> real) list \<Rightarrow> string" where
  "demo_compose inp cs = ''This pattern may suggest a recurring theme.''"

definition demo_deployment :: deployment where
  "demo_deployment =
     \<lparr>corpus = demo_corpus, min_similarity = 0.5, top_k = 3,
      allowed_lexicon = [''may suggest'', ''resembles'', ''could indicate''],
      disallowed_lexicon = [''you should'', ''diagnosis'', ''disorder''],
      compose = demo_compose,
      versions = [(''temporal'', ''temporal-v1.0.0'')]\<rparr>"

definition demo_input :: analysis_input where
  "demo_input =
     \<lparr>contributing_entries = [1, 2, 3], span_days = 7, window_start = 0, window_end = 6,
      query_embedding = [1, 0], category_filter = None, raw_confidence = 0.95\<rparr>"

definition demo_reflection :: "nat \<Rightarrow> real \<Rightarrow> reflection" where
  "demo_reflection i t =
     \<lparr>refl_id = i, user_id = 1, content = ''This pattern may suggest a recurring theme.'',
      concepts_used = [(0, 1)], entry_ids = [1, 2, 3],
      date_range_start = 0, date_range_end = 6,
      confidence_score = 0.76, created_at = t, dismissed_at = None\<rparr>"

definition demo_trace :: "nat \<Rightarrow> audit_trace" where
  "demo_trace i =
     \<lparr>trace_reflection_id = i, generation_params = (0.5, 3),
      reasoning_steps = [''eligible'', ''retrieved'', ''composed'', ''policy passed''],
      model_versions = [(''temporal'', ''temporal-v1.0.0'')]\<rparr>"

definition demo_store :: store where
  "demo_store =
     \<lparr>reflections = [demo_reflection 0 0, demo_reflection 1 1],
      audit_traces = [demo_trace 0, demo_trace 1]\<rparr>"

definition demo_input_far :: analysis_input where
  "demo_input_far = demo_input\<lparr>query_embedding := [- 1, 0]\<rparr>"

section \<open>Theorems\<close>

lemma round_half_even_mono:
  assumes "x \<le> y"
  shows "round_half_even x \<le> round_half_even y"
proof (cases "\<lfloor>x\<rfloor> = \<lfloor>y\<rfloor>")
  case True
  with assms show ?thesis
    by (auto simp: round_half_even_def Let_def)
next
  case False
  with assms have lt: "\<lfloor>x\<rfloor> < \<lfloor>y\<rfloor>"
    using floor_mono [of x y] by linarith
  have "round_half_even x \<le> \<lfloor>x\<rfloor> + 1"
    by (simp add: round_half_even_def Let_def)
  moreover have "\<lfloor>y\<rfloor> \<le> round_half_even y"
    by (simp add: round_half_even_def Let_def)
  ultimately show ?thesis using lt by linarith
qed

lemma round_half_even_of_int: "round_half_even (of_int k) = k"
  by (simp add: round_half_even_def Let_def)

lemma py_round2_mono: "x \<le> y \<Longrightarrow> py_round2 x \<le> py_round2 y"
  unfolding py_round2_def
  by (intro divide_right_mono) (auto intro!: round_half_even_mono)

lemma py_round2_le_cap: "x \<le> 0.80 \<Longrightarrow> py_round2 x \<le> 0.80"
proof -
  assume "x \<le> 0.80"
  then have "py_round2 x \<le> py_round2 0.80" by (rule py_round2_mono)
  also have "py_round2 0.80 = 0.80"
    using round_half_even_of_int [of 80] by (simp add: py_round2_def)
  finally show ?thesis .
qed

subsection \<open>Confidence capping\<close>

lemma constrain_confidence_le_cap: "constrain_confidence raw \<le> 0.80"
  unfolding constrain_confidence_def Let_def MAX_CONFIDENCE_def
  by (rule py_round2_le_cap) (auto simp: min_def)

lemma constrain_confidence_high:
  assumes "0.90 < raw"
  shows "constrain_confidence raw = 0.76"
proof -
  have "min raw 0.80 = (0.80::real)" using assms by simp
  then have "constrain_confidence raw = py_round2 0.76"
    using assms by (simp add: constrain_confidence_def MAX_CONFIDENCE_def)
  also have "\<dots> = 0.76"
    using round_half_even_of_int [of 76] by (simp add: py_round2_def)
  finally show ?thesis .
qed

lemma constrain_confidence_below_cap:
  "raw < 0.80 \<Longrightarrow> constrain_confidence raw = py_round2 raw"
  by (simp add: constrain_confidence_def MAX_CONFIDENCE_def Let_def)









text \<open>
  Claim C8. The confidence transform never returns more than 0.80, and below the cap it
  is monotone: for \<open>x \<le> y < 0.80\<close> the output at \<open>x\<close> is at most the output at \<open>y\<close>.
\<close>

theorem constrain_confidence_bounded_monotone:
  "constrain_confidence z \<le> 0.80
   \<and> (x \<le> y \<and> y < 0.80 \<longrightarrow> constrain_confidence x \<le> constrain_confidence y)"
proof (intro conjI impI)
  show "constrain_confidence z \<le> 0.80" by (rule constrain_confidence_le_cap)
next
  assume h: "x \<le> y \<and> y < 0.80"
  then have "constrain_confidence x = py_round2 x" "constrain_confidence y = py_round2 y"
    by (simp_all add: constrain_confidence_below_cap)
  with h show "constrain_confidence x \<le> constrain_confidence y"
    by (simp add: py_round2_mono)
qed

theorem constrain_confidence_bounded_monotone_witness:
  "(0.313::real) \<le> 0.647 \<and> (0.647::real) < 0.80
   \<and> constrain_confidence 0.313 \<le> constrain_confidence 0.647
   \<and> constrain_confidence 0.95 \<le> 0.80"
  using constrain_confidence_bounded_monotone [of "0.95" "0.313" "0.647"] by simp

subsection \<open>Trend detection\<close>

text \<open>
  Claim C2. A series of fewer than 7 observations is classified \<open>insufficient_data\<close>,
  with slope 0 and confidence (r squared) 0, whatever its values.
\<close>

theorem detect_trend_insufficient_data:
  "length values < 7 \<Longrightarrow> detect_trend pvalue values dates = (''insufficient_data'', 0, 0)"
  by (simp add: detect_trend_def)

theorem detect_trend_insufficient_data_witness:
  "length [0.9, 0.1, 0.8, 0.2, 0.7, 0.3 :: real] < 7
   \<and> detect_trend (\<lambda>x y. 0) [0.9, 0.1, 0.8, 0.2, 0.7, 0.3] ([] :: nat list)
       = (''insufficient_data'', 0, 0)"
  using detect_trend_insufficient_data
          [of "[0.9, 0.1, 0.8, 0.2, 0.7, 0.3]" "\<lambda>x y. 0" "[] :: nat list"]
  by simp

lemma upt_14: "[0..<14] = [0, 1, 2, 3, 4, 5, 6, 7, 8, 9, 10, 11, 12, 13]"
  by (simp add: upt_rec)

lemma np_correlate_full_length: "length (np_correlate_full a v) = length a + length v - 1"
  by (simp add: np_correlate_full_def)

lemma np_correlate_full_nth:
  assumes "j < length a + length v - 1"
  shows "np_correlate_full a v ! j =
     (\<Sum>n \<leftarrow> [0..<length v].
         (let i = int n + int j - (int (length v) - 1)
          in if 0 \<le> i \<and> i < int (length a) then a ! nat i * v ! n else 0))"
  using assms by (simp add: np_correlate_full_def)

lemma alternating_mean: "np_mean alternating_series = 3 / 10"
  by (simp add: np_mean_def alternating_series_def)

lemma alternating_length: "length alternating_series = 14"
  by (simp add: alternating_series_def)

lemma alternating_centered_eq:
  "map (\<lambda>v. v - np_mean alternating_series) alternating_series = alternating_centered"
  unfolding alternating_mean by (simp add: alternating_series_def alternating_centered_def)

lemma alternating_lag0:
  "np_correlate_full alternating_centered alternating_centered ! 13 = 14 / 25"
  by (subst np_correlate_full_nth) (simp_all add: alternating_centered_def upt_14 Let_def)

lemma alternating_lag7:
  "np_correlate_full alternating_centered alternating_centered ! 20 = - 7 / 25"
  by (subst np_correlate_full_nth) (simp_all add: alternating_centered_def upt_14 Let_def)

lemma alternating_autocorr:
  "drop (length (np_correlate_full alternating_centered alternating_centered) div 2)
        (np_correlate_full alternating_centered alternating_centered) ! 0 = 14 / 25"
  "drop (length (np_correlate_full alternating_centered alternating_centered) div 2)
        (np_correlate_full alternating_centered alternating_centered) ! 7 = - 7 / 25"
proof -
  have len: "length (np_correlate_full alternating_centered alternating_centered) = 27"
    by (simp add: np_correlate_full_length alternating_centered_def)
  show "drop (length (np_correlate_full alternating_centered alternating_centered) div 2)
        (np_correlate_full alternating_centered alternating_centered) ! 0 = 14 / 25"
    using alternating_lag0 by (simp add: len)
  show "drop (length (np_correlate_full alternating_centered alternating_centered) div 2)
        (np_correlate_full alternating_centered alternating_centered) ! 7 = - 7 / 25"
    using alternating_lag7 by (simp add: len)
qed

lemma alternating_slope:
  "slope (linregress pv (np_arange (length alternating_series)) alternating_series) = - 2 / 325"
  unfolding alternating_length
  by (simp add: linregress_def np_arange_def upt_14 Let_def np_mean_def alternating_series_def)

lemma alternating_is_cyclical_False: "is_cyclical alternating_series = False"
  unfolding is_cyclical_def Let_def alternating_centered_eq alternating_autocorr
  by simp

text \<open>
  Claim C5, as stated, fails: on the 14-point alternating series the autocorrelation of
  the mean-centred series at lag 7 is \<open>- 7 / 25\<close> against \<open>14 / 25\<close> at lag 0, a
  normalised value of \<open>- 1 / 2\<close>, which does not exceed 0.5; \<open>is_cyclical\<close> is false.
\<close>

theorem alternating_series_not_cyclical: "\<not> is_cyclical alternating_series"
  unfolding is_cyclical_def Let_def alternating_centered_eq alternating_autocorr
  by simp

text \<open>
  Claim C5, amended. On the 14-point alternating series \<open>detect_trend\<close> returns the
  direction \<open>stable\<close> with slope \<open>- 2 / 325\<close>, whatever the p-value of the regression:
  the series is not cyclical at lag 7 and its slope lies within 0.01 of zero.
\<close>

theorem alternating_series_stable:
  "fst (detect_trend pvalue alternating_series dates) = ''stable''
   \<and> fst (snd (detect_trend pvalue alternating_series dates)) = - 2 / 325"
  unfolding detect_trend_def Let_def alternating_slope
  by (simp add: alternating_is_cyclical_False alternating_length)

subsection \<open>Certainty scoring\<close>

lemma count_filter: "(\<Sum>w \<leftarrow> filter P ws. (1::nat)) = length (filter P ws)"
  by (induction ws) auto

lemma py_truediv_pos: "0 < b \<Longrightarrow> py_truediv a b = Inr (a / b)"
  by (simp add: py_truediv_def)

lemma calculate_certainty_range:
  "\<exists>r. calculate_certainty text = Inr r \<and> 0 \<le> r \<and> r \<le> 1"
proof -
  define h where "h = length (filter (\<lambda>w. w \<in> set HEDGING_WORDS) (py_split (py_lower text)))"
  define c where "c = length (filter (\<lambda>w. w \<in> set CERTAINTY_WORDS) (py_split (py_lower text)))"
  have eq: "calculate_certainty text =
              (if h + c = 0 then Inr 0.5 else py_truediv (real c) (real (h + c)))"
    unfolding calculate_certainty_def Let_def count_filter h_def c_def by (rule refl)
  show ?thesis
  proof (cases "h + c = 0")
    case True
    then have "calculate_certainty text = Inr 0.5" by (simp add: eq)
    moreover have "(0::real) \<le> 0.5 \<and> (0.5::real) \<le> 1" by simp
    ultimately show ?thesis by blast
  next
    case False
    then have "0 < h + c" by simp
    then have pos: "0 < real (h + c)" by (simp only: of_nat_0_less_iff)
    then have "py_truediv (real c) (real (h + c)) = Inr (real c / real (h + c))"
      by (rule py_truediv_pos)
    moreover have "0 \<le> real c / real (h + c)"
      using pos by (intro divide_nonneg_pos) simp_all
    moreover have "real c \<le> real (h + c)" by simp
    then have "real c / real (h + c) \<le> 1"
      using pos by (simp only: divide_le_eq_1_pos)
    ultimately show ?thesis using False by (simp only: eq if_False) blast
  qed
qed

lemma lower_example: "py_lower ''The  Sky is BLUE'' = ''the  sky is blue''"
  by (simp add: py_lower_def py_lower_char_def upper_letters_def lower_letters_def)

lemma split_example:
  "py_split (py_lower ''The  Sky is BLUE'') = [''the'', ''sky'', ''is'', ''blue'']"
  unfolding lower_example by (simp add: py_split_def py_isspace_def)

lemma lower_example_mixed:
  "py_lower ''I will DEFINITELY maybe go'' = ''i will definitely maybe go''"
  by (simp add: py_lower_def py_lower_char_def upper_letters_def lower_letters_def)

lemma calculate_certainty_example:
  "calculate_certainty ''I will DEFINITELY maybe go'' = Inr (2 / 3)"
  unfolding calculate_certainty_def lower_example_mixed
  by (simp add: py_split_def py_isspace_def HEDGING_WORDS_def CERTAINTY_WORDS_def
      py_truediv_def Let_def)

text \<open>
  Claim C9. \<open>calculate_certainty\<close> returns a value for every text, never the division
  error, and the value lies in \<open>[0, 1]\<close>; for a text none of whose words is in the
  hedging or the certainty lexicon it is exactly 0.5.
\<close>

theorem calculate_certainty_total:
  "(\<exists>r. calculate_certainty text = Inr r \<and> 0 \<le> r \<and> r \<le> 1)
   \<and> ((\<forall>w \<in> set (py_split (py_lower text)).
          w \<notin> set HEDGING_WORDS \<and> w \<notin> set CERTAINTY_WORDS)
        \<longrightarrow> calculate_certainty text = Inr 0.5)"
proof (intro conjI impI)
  show "\<exists>r. calculate_certainty text = Inr r \<and> 0 \<le> r \<and> r \<le> 1"
    by (rule calculate_certainty_range)
next
  assume h: "\<forall>w \<in> set (py_split (py_lower text)).
          w \<notin> set HEDGING_WORDS \<and> w \<notin> set CERTAINTY_WORDS"
  then have e: "filter (\<lambda>w. w \<in> set HEDGING_WORDS) (py_split (py_lower text)) = []"
    "filter (\<lambda>w. w \<in> set CERTAINTY_WORDS) (py_split (py_lower text)) = []"
    by (auto simp: filter_empty_conv)
  show "calculate_certainty text = Inr 0.5"
    unfolding calculate_certainty_def Let_def e by simp
qed

theorem calculate_certainty_total_witness:
  "py_split (py_lower ''The  Sky is BLUE'') = [''the'', ''sky'', ''is'', ''blue'']
   \<and> calculate_certainty ''The  Sky is BLUE'' = Inr 0.5"
proof -
  have h: "\<forall>w \<in> set (py_split (py_lower ''The  Sky is BLUE'')).
          w \<notin> set HEDGING_WORDS \<and> w \<notin> set CERTAINTY_WORDS"
    unfolding split_example by (simp add: HEDGING_WORDS_def CERTAINTY_WORDS_def)
  with calculate_certainty_total [of "''The  Sky is BLUE''"] split_example
  show ?thesis by blast
qed

subsection \<open>Registration form\<close>

lemma isPasswordValid_iff:
  "isPasswordValid s \<longleftrightarrow>
     length (password s) \<ge> 8
     \<and> (\<exists>c \<in> set (password s). 97 \<le> (of_char c :: nat) \<and> (of_char c :: nat) \<le> 122)
     \<and> (\<exists>c \<in> set (password s). 65 \<le> (of_char c :: nat) \<and> (of_char c :: nat) \<le> 90)
     \<and> (\<exists>c \<in> set (password s). 48 \<le> (of_char c :: nat) \<and> (of_char c :: nat) \<le> 57)
     \<and> confirmPassword s \<noteq> [] \<and> confirmPassword s = password s"
  by (auto simp: isPasswordValid_def passwordChecks_def in_range_def list_ex_iff)

lemma handleSubmit_invalid:
  "\<not> isPasswordValid s \<Longrightarrow>
     handleSubmit api s = (s\<lparr>error := ''Please meet all password requirements''\<rparr>, [])"
  by (simp add: handleSubmit_def Let_def)

lemma handleSubmit_valid:
  "isPasswordValid s \<Longrightarrow> Register (email s) (password s) \<in> set (snd (handleSubmit api s))"
  by (simp add: handleSubmit_def Let_def split: sum.splits)

text \<open>
  Claim C10. The submit handler calls \<open>api.register\<close> exactly when the password has at
  least 8 characters, a lower-case letter, an upper-case letter and a digit, and the
  confirmation is non-empty and equal to it; when it makes no such call it has made no
  call at all and has set the error message.
\<close>

theorem handleSubmit_registers_iff_valid:
  "((\<exists>e p. Register e p \<in> set (snd (handleSubmit api s))) \<longleftrightarrow>
      length (password s) \<ge> 8
      \<and> (\<exists>c \<in> set (password s). 97 \<le> (of_char c :: nat) \<and> (of_char c :: nat) \<le> 122)
      \<and> (\<exists>c \<in> set (password s). 65 \<le> (of_char c :: nat) \<and> (of_char c :: nat) \<le> 90)
      \<and> (\<exists>c \<in> set (password s). 48 \<le> (of_char c :: nat) \<and> (of_char c :: nat) \<le> 57)
      \<and> confirmPassword s \<noteq> [] \<and> confirmPassword s = password s)
   \<and> ((\<forall>e p. Register e p \<notin> set (snd (handleSubmit api s)))
      \<longrightarrow> handleSubmit api s
            = (s\<lparr>error := ''Please meet all password requirements''\<rparr>, []))"
proof (cases "isPasswordValid s")
  case True
  then have "\<exists>e p. Register e p \<in> set (snd (handleSubmit api s))"
    using handleSubmit_valid by blast
  with True show ?thesis unfolding isPasswordValid_iff by blast
next
  case False
  then have "handleSubmit api s = (s\<lparr>error := ''Please meet all password requirements''\<rparr>, [])"
    by (rule handleSubmit_invalid)
  moreover from this have "\<not> (\<exists>e p. Register e p \<in> set (snd (handleSubmit api s)))" by simp
  ultimately show ?thesis using False unfolding isPasswordValid_iff by blast
qed

theorem handleSubmit_registers_iff_valid_witness:
  "(length ''Abcdefg1'' \<ge> 8
      \<and> (\<exists>c \<in> set ''Abcdefg1''. 97 \<le> (of_char c :: nat) \<and> (of_char c :: nat) \<le> 122)
      \<and> (\<exists>c \<in> set ''Abcdefg1''. 65 \<le> (of_char c :: nat) \<and> (of_char c :: nat) \<le> 90)
      \<and> (\<exists>c \<in> set ''Abcdefg1''. 48 \<le> (of_char c :: nat) \<and> (of_char c :: nat) \<le> 57))
   \<and> (\<exists>e p. Register e p \<in> set (snd (handleSubmit
          \<lparr>api_register = (\<lambda>e p. Inr ()), api_login = (\<lambda>e p. Inr ())\<rparr>
          \<lparr>email = ''a@b.c'', password = ''Abcdefg1'', confirmPassword = ''Abcdefg1'',
           showPassword = False, isLoading = False, error = []\<rparr>)))
   \<and> \<not> (\<exists>c \<in> set ''abcdefg1''. 65 \<le> (of_char c :: nat) \<and> (of_char c :: nat) \<le> 90)
   \<and> handleSubmit
          \<lparr>api_register = (\<lambda>e p. Inr ()), api_login = (\<lambda>e p. Inr ())\<rparr>
          \<lparr>email = ''a@b.c'', password = ''abcdefg1'', confirmPassword = ''abcdefg1'',
           showPassword = False, isLoading = False, error = []\<rparr>
       = (\<lparr>email = ''a@b.c'', password = ''abcdefg1'', confirmPassword = ''abcdefg1'',
           showPassword = False, isLoading = False,
           error = ''Please meet all password requirements''\<rparr>, [])"
  using handleSubmit_registers_iff_valid
          [of "\<lparr>api_register = (\<lambda>e p. Inr ()), api_login = (\<lambda>e p. Inr ())\<rparr>"
              "\<lparr>email = ''a@b.c'', password = ''Abcdefg1'', confirmPassword = ''Abcdefg1'',
                showPassword = False, isLoading = False, error = []\<rparr>"]
        handleSubmit_registers_iff_valid
          [of "\<lparr>api_register = (\<lambda>e p. Inr ()), api_login = (\<lambda>e p. Inr ())\<rparr>"
              "\<lparr>email = ''a@b.c'', password = ''abcdefg1'', confirmPassword = ''abcdefg1'',
                showPassword = False, isLoading = False, error = []\<rparr>"]
  by simp

subsection \<open>Runs of the Synthesizer\<close>

lemma run_invariant_start: "run_invariant d st u now inp (st, start_run u now inp)"
  by (simp add: run_invariant_def start_run_def)

lemma persist_ignores_phase: "persist d st (r\<lparr>phase := p\<rparr>) c = persist d st r c"
  by (simp add: persist_def)

lemma run_invariant_step:
  assumes "run_invariant d st0 u now inp sr"
  shows "run_invariant d st0 u now inp (synth_step d sr)"
proof (cases "phase (snd sr)")
  case Collecting
  with assms show ?thesis
    by (auto simp: run_invariant_def synth_step_def Let_def split: sum.splits)
next
  case Eligible
  with assms show ?thesis
    by (auto simp: run_invariant_def synth_step_def Let_def split: sum.splits)
next
  case Ineligible
  with assms show ?thesis
    by (auto simp: run_invariant_def synth_step_def Let_def split: sum.splits)
next
  case Retrieving
  with assms show ?thesis
    by (auto simp: run_invariant_def synth_step_def Let_def split: sum.splits)
next
  case Composing
  with assms show ?thesis
    by (auto simp: run_invariant_def synth_step_def Let_def split: sum.splits)
next
  case PolicyChecked
  with assms show ?thesis
    by (auto simp: run_invariant_def synth_step_def Let_def persist_def split: sum.splits)
next
  case Emitted
  with assms show ?thesis
    by (auto simp: run_invariant_def synth_step_def Let_def split: sum.splits)
next
  case (Rejected x)
  with assms show ?thesis
    by (auto simp: run_invariant_def synth_step_def Let_def split: sum.splits)
qed

lemma run_steps_Suc_right: "run_steps d (Suc n) sr = synth_step d (run_steps d n sr)"
  by (induction n arbitrary: sr) simp_all

lemma run_invariant_steps:
  "run_invariant d st u now inp (run_steps d n (st, start_run u now inp))"
proof (induction n)
  case 0
  show ?case by (simp add: run_invariant_start)
next
  case (Suc n)
  then show ?case unfolding run_steps_Suc_right by (rule run_invariant_step)
qed


subsection \<open>Pairing of reflections and audit traces\<close>

lemma persist_reflection_ids:
  "map refl_id (reflections (persist d st r c)) = map refl_id (reflections st) @ [length (reflections st)]"
  by (simp add: persist_def Let_def)

lemma persist_trace_ids:
  "map trace_reflection_id (audit_traces (persist d st r c))
     = map trace_reflection_id (audit_traces st) @ [length (reflections st)]"
  by (simp add: persist_def Let_def)

lemma persist_lengths:
  "length (reflections (persist d st r c)) = Suc (length (reflections st))"
  "length (audit_traces (persist d st r c)) = Suc (length (audit_traces st))"
  by (simp_all add: persist_def Let_def)

lemma run_steps_store:
  "(phase (snd (run_steps d n (st, start_run u now inp))) \<noteq> Emitted
      \<and> fst (run_steps d n (st, start_run u now inp)) = st)
   \<or> (phase (snd (run_steps d n (st, start_run u now inp))) = Emitted
      \<and> (\<exists>r c. run_user r = u \<and> run_now r = now \<and> run_input r = inp
            \<and> policy_check (allowed_lexicon d) (disallowed_lexicon d) (reflections st)
                   u now (raw_confidence inp) (draft r) = Inr c
            \<and> eligibility (contributing_entries inp) (span_days inp) = Inr ()
            \<and> retrieved r \<noteq> []
            \<and> fst (run_steps d n (st, start_run u now inp)) = persist d st r c))"
  using run_invariant_steps [of d st u now inp n]
  unfolding run_invariant_def by (cases "phase (snd (run_steps d n (st, start_run u now inp))) = Emitted") auto

lemma dismiss_ids:
  assumes "dismissReflection st u rid t = Inr st'"
  shows "map refl_id (reflections st') = map refl_id (reflections st)"
    and "audit_traces st' = audit_traces st"
    and "map user_id (reflections st') = map user_id (reflections st)"
    and "map created_at (reflections st') = map created_at (reflections st)"
    and "length (reflections st') = length (reflections st)"
  using assms by (auto simp: dismissReflection_def split: if_splits)

lemma apply_operation_paired:
  assumes "map refl_id (reflections st) = [0..<length (reflections st)]"
      and "map trace_reflection_id (audit_traces st) = [0..<length (reflections st)]"
  shows "map refl_id (reflections (apply_operation d st op))
           = [0..<length (reflections (apply_operation d st op))]
         \<and> map trace_reflection_id (audit_traces (apply_operation d st op))
           = [0..<length (reflections (apply_operation d st op))]"
proof (cases op)
  case (Generate u now inp)
  show ?thesis
    using run_steps_store [of d 5 st u now inp] assms
    by (auto simp: Generate generateReflection_def persist_reflection_ids persist_trace_ids
        persist_lengths)
next
  case (Cancelled u now inp n)
  show ?thesis
    using run_steps_store [of d n st u now inp] assms
    by (auto simp: Cancelled persist_reflection_ids persist_trace_ids persist_lengths)
next
  case (Dismiss u rid t)
  show ?thesis
  proof (cases "dismissReflection st u rid t")
    case (Inl e)
    with assms show ?thesis by (simp add: Dismiss)
  next
    case (Inr st')
    with assms dismiss_ids [OF Inr] show ?thesis by (simp add: Dismiss)
  qed
qed

lemma run_operations_paired:
  assumes "map refl_id (reflections st) = [0..<length (reflections st)]"
      and "map trace_reflection_id (audit_traces st) = [0..<length (reflections st)]"
  shows "map refl_id (reflections (run_operations d st ops))
           = [0..<length (reflections (run_operations d st ops))]
         \<and> map trace_reflection_id (audit_traces (run_operations d st ops))
           = [0..<length (reflections (run_operations d st ops))]"
  using assms
proof (induction ops arbitrary: st)
  case Nil
  then show ?case by simp
next
  case (Cons op ops)
  from apply_operation_paired [OF Cons.prems, of d op]
  show ?case by (simp add: Cons.IH)
qed

lemma reachable_paired:
  "map refl_id (reflections (run_operations d empty_store ops))
     = [0..<length (reflections (run_operations d empty_store ops))]"
  "map trace_reflection_id (audit_traces (run_operations d empty_store ops))
     = [0..<length (reflections (run_operations d empty_store ops))]"
  using run_operations_paired [of empty_store d ops] by (simp_all add: empty_store_def)

lemma exists_id_iff: "(\<exists>x \<in> set xs. f x = i) \<longleftrightarrow> i \<in> set (map f xs)"
  by auto

text \<open>
  Claim C6. In every state reached from the empty store by runs (complete or cancelled
  after any number of transitions) and dismissals, the reflections and the audit traces
  carry the same ids in the same order, each once: a reflection with a given id exists
  exactly when its audit trace does. A run that does not end in \<open>Emitted\<close>, whether
  rejected, ineligible or cancelled, leaves the store as it found it; one that does has
  added one reflection and one audit trace.
\<close>

theorem reflection_iff_audit_trace:
  "map refl_id (reflections (run_operations d empty_store ops))
     = map trace_reflection_id (audit_traces (run_operations d empty_store ops))
   \<and> distinct (map refl_id (reflections (run_operations d empty_store ops)))
   \<and> ((\<exists>r \<in> set (reflections (run_operations d empty_store ops)). refl_id r = i) \<longleftrightarrow>
        (\<exists>a \<in> set (audit_traces (run_operations d empty_store ops)). trace_reflection_id a = i))
   \<and> (phase (snd (run_steps d n (st, start_run u now inp))) \<noteq> Emitted \<longrightarrow>
        fst (run_steps d n (st, start_run u now inp)) = st)
   \<and> (phase (snd (run_steps d n (st, start_run u now inp))) = Emitted \<longrightarrow>
        length (reflections (fst (run_steps d n (st, start_run u now inp))))
          = Suc (length (reflections st))
        \<and> length (audit_traces (fst (run_steps d n (st, start_run u now inp))))
          = Suc (length (audit_traces st)))"
proof -
  let ?st = "run_operations d empty_store ops"
  have eq: "map refl_id (reflections ?st) = map trace_reflection_id (audit_traces ?st)"
    by (simp add: reachable_paired)
  have dist: "distinct (map refl_id (reflections ?st))"
    by (simp add: reachable_paired)
  have iff: "(\<exists>r \<in> set (reflections ?st). refl_id r = i) \<longleftrightarrow>
        (\<exists>a \<in> set (audit_traces ?st). trace_reflection_id a = i)"
    unfolding exists_id_iff eq ..
  have run: "(phase (snd (run_steps d n (st, start_run u now inp))) \<noteq> Emitted \<longrightarrow>
        fst (run_steps d n (st, start_run u now inp)) = st)
   \<and> (phase (snd (run_steps d n (st, start_run u now inp))) = Emitted \<longrightarrow>
        length (reflections (fst (run_steps d n (st, start_run u now inp))))
          = Suc (length (reflections st))
        \<and> length (audit_traces (fst (run_steps d n (st, start_run u now inp))))
          = Suc (length (audit_traces st)))"
    using run_steps_store [of d n st u now inp] by (auto simp: persist_lengths)
  from eq dist iff run show ?thesis by blast
qed

subsection \<open>Rate limit\<close>

lemma filter_length_mono:
  "(\<And>x. x \<in> set xs \<Longrightarrow> P x \<Longrightarrow> Q x) \<Longrightarrow> length (filter P xs) \<le> length (filter Q xs)"
  by (induction xs) auto

lemma window_le_since:
  "now - 7 < w \<Longrightarrow> accepted_in_window rs u w \<le> accepted_since rs u (now - 7)"
  unfolding accepted_in_window_def accepted_since_def
  by (rule filter_length_mono) auto

lemma policy_check_passes_rate:
  "policy_check A D rs u now raw txt = Inr c \<Longrightarrow> accepted_since rs u (now - 7) < 2"
  by (auto simp: policy_check_def rate_limit_def split: sum.splits if_splits)

lemma policy_check_rate_limited:
  "2 \<le> accepted_since rs u (now - 7) \<Longrightarrow> policy_check A D rs u now raw txt = Inl rate_limited"
  by (simp add: policy_check_def rate_limit_def)

lemma persist_window:
  "accepted_in_window (reflections (persist d st r c)) u w
     = accepted_in_window (reflections st) u w
       + (if run_user r = u \<and> w \<le> run_now r \<and> run_now r < w + 7 then 1 else 0)"
  by (simp add: persist_def Let_def accepted_in_window_def)

lemma persist_window_bound:
  assumes inv: "\<And>u w. accepted_in_window (reflections st) u w \<le> 2"
      and ok: "policy_check A D (reflections st) (run_user r) (run_now r) raw txt = Inr c"
  shows "accepted_in_window (reflections (persist d st r c)) u w \<le> 2"
proof (cases "run_user r = u \<and> w \<le> run_now r \<and> run_now r < w + 7")
  case True
  then have "run_now r - 7 < w" by simp
  then have "accepted_in_window (reflections st) (run_user r) w
               \<le> accepted_since (reflections st) (run_user r) (run_now r - 7)"
    by (rule window_le_since)
  also have "\<dots> < 2" using ok by (rule policy_check_passes_rate)
  finally show ?thesis using True by (simp add: persist_window)
next
  case False
  then show ?thesis using inv [of u w] by (auto simp: persist_window)
qed

lemma window_map:
  assumes "\<And>r. user_id (f r) = user_id r \<and> created_at (f r) = created_at r"
  shows "accepted_in_window (map f rs) u w = accepted_in_window rs u w"
    and "accepted_since (map f rs) u t = accepted_since rs u t"
  by (induction rs) (simp_all add: accepted_in_window_def accepted_since_def assms)

lemma dismiss_window:
  assumes "dismissReflection st u rid t = Inr st'"
  shows "accepted_in_window (reflections st') u' w = accepted_in_window (reflections st) u' w"
    and "accepted_since (reflections st') u' t' = accepted_since (reflections st) u' t'"
proof -
  let ?f = "\<lambda>r. if refl_id r = rid \<and> user_id r = u then r\<lparr>dismissed_at := Some t\<rparr> else r"
  have st': "reflections st' = map ?f (reflections st)"
    using assms by (auto simp: dismissReflection_def split: if_splits)
  have keep: "\<And>r. user_id (?f r) = user_id r \<and> created_at (?f r) = created_at r"
    by simp
  show "accepted_in_window (reflections st') u' w = accepted_in_window (reflections st) u' w"
    unfolding st' using keep by (rule window_map(1))
  show "accepted_since (reflections st') u' t' = accepted_since (reflections st) u' t'"
    unfolding st' using keep by (rule window_map(2))
qed

lemma apply_operation_window:
  assumes inv: "\<And>u w. accepted_in_window (reflections st) u w \<le> 2"
  shows "accepted_in_window (reflections (apply_operation d st op)) u w \<le> 2"
proof (cases op)
  case (Generate v now inp)
  show ?thesis
    using run_steps_store [of d 5 st v now inp] inv persist_window_bound [OF inv]
    by (auto simp: Generate generateReflection_def)
next
  case (Cancelled v now inp n)
  show ?thesis
    using run_steps_store [of d n st v now inp] inv persist_window_bound [OF inv]
    by (auto simp: Cancelled)
next
  case (Dismiss v rid t)
  show ?thesis
  proof (cases "dismissReflection st v rid t")
    case (Inl e)
    with inv show ?thesis by (simp add: Dismiss)
  next
    case (Inr st')
    with inv dismiss_window(1) [OF Inr] show ?thesis by (simp add: Dismiss)
  qed
qed

lemma run_operations_window:
  assumes "\<And>u w. accepted_in_window (reflections st) u w \<le> 2"
  shows "accepted_in_window (reflections (run_operations d st ops)) u w \<le> 2"
  using assms
proof (induction ops arbitrary: st u w)
  case Nil
  then show ?case by simp
next
  case (Cons op ops)
  have "\<And>u w. accepted_in_window (reflections (apply_operation d st op)) u w \<le> 2"
    using Cons.prems by (rule apply_operation_window)
  then show ?case by (simp add: Cons.IH)
qed

lemma reachable_window:
  "accepted_in_window (reflections (run_operations d empty_store ops)) u w \<le> 2"
  by (rule run_operations_window) (simp add: empty_store_def accepted_in_window_def)

subsection \<open>Evaluating a run\<close>

lemma demo_cosine:
  "cosine_similarity [1, 0] [1, 0] = 1" "cosine_similarity [1, 0] [0, 1] = 0"
  by (simp_all add: cosine_similarity_def dot_def)

lemma demo_retrieve:
  "retrieve (min_similarity demo_deployment) (top_k demo_deployment) (corpus demo_deployment)
     (category_filter demo_input) (query_embedding demo_input) = [(0, 1)]"
  by (simp add: retrieve_def demo_deployment_def demo_corpus_def demo_input_def demo_cosine)

lemma demo_language:
  "language_form (allowed_lexicon demo_deployment) (disallowed_lexicon demo_deployment)
     ''This pattern may suggest a recurring theme.'' = Inr ()"
  by (simp add: language_form_def demo_deployment_def)

lemma demo_eligible:
  "eligibility (contributing_entries demo_input) (span_days demo_input) = Inr ()"
  by (simp add: eligibility_def demo_input_def)

lemma five_steps: "run_steps d 5 sr = synth_step d (synth_step d (synth_step d (synth_step d (synth_step d sr))))"
  by (simp add: eval_nat_numeral)

lemma step_collecting_eligible:
  "phase r = Collecting \<Longrightarrow> eligibility (contributing_entries (run_input r)) (span_days (run_input r)) = Inr ()
   \<Longrightarrow> synth_step d (st, r) = (st, r\<lparr>phase := Eligible, steps_log := steps_log r @ [''eligible'']\<rparr>)"
  by (simp add: synth_step_def)

lemma step_eligible:
  "phase r = Eligible \<Longrightarrow> synth_step d (st, r) = (st, r\<lparr>phase := Retrieving\<rparr>)"
  by (simp add: synth_step_def)

lemma step_retrieving_empty:
  "phase r = Retrieving \<Longrightarrow>
   retrieve (min_similarity d) (top_k d) (corpus d) (category_filter (run_input r))
     (query_embedding (run_input r)) = []
   \<Longrightarrow> synth_step d (st, r) = (st, r\<lparr>phase := Rejected no_grounding\<rparr>)"
  by (simp add: synth_step_def)

lemma step_retrieving_found:
  "phase r = Retrieving \<Longrightarrow>
   retrieve (min_similarity d) (top_k d) (corpus d) (category_filter (run_input r))
     (query_embedding (run_input r)) = cs \<Longrightarrow> cs \<noteq> []
   \<Longrightarrow> synth_step d (st, r) = (st, r\<lparr>phase := Composing, retrieved := cs,
                             steps_log := steps_log r @ [''retrieved'']\<rparr>)"
  by (simp add: synth_step_def)

lemma step_composing:
  "phase r = Composing \<Longrightarrow>
   synth_step d (st, r) = (st, r\<lparr>phase := PolicyChecked, draft := compose d (run_input r) (retrieved r),
                    steps_log := steps_log r @ [''composed'']\<rparr>)"
  by (simp add: synth_step_def)

lemma step_policy_rejected:
  "phase r = PolicyChecked \<Longrightarrow>
   policy_check (allowed_lexicon d) (disallowed_lexicon d) (reflections st)
      (run_user r) (run_now r) (raw_confidence (run_input r)) (draft r) = Inl reason
   \<Longrightarrow> synth_step d (st, r) = (st, r\<lparr>phase := Rejected reason\<rparr>)"
  by (simp add: synth_step_def)

lemma step_policy_passed:
  "phase r = PolicyChecked \<Longrightarrow>
   policy_check (allowed_lexicon d) (disallowed_lexicon d) (reflections st)
      (run_user r) (run_now r) (raw_confidence (run_input r)) (draft r) = Inr c
   \<Longrightarrow> synth_step d (st, r) =
         (persist d st (r\<lparr>steps_log := steps_log r @ [''policy passed'']\<rparr>) c,
          r\<lparr>phase := Emitted, steps_log := steps_log r @ [''policy passed'']\<rparr>)"
  by (simp add: synth_step_def)

lemma step_rejected:
  "phase r = Rejected x \<Longrightarrow> synth_step d (st, r) = (st, r)"
  by (simp add: synth_step_def)

text \<open>A run on an eligible input whose retrieval is empty.\<close>

lemma generate_no_grounding:
  assumes "eligibility (contributing_entries inp) (span_days inp) = Inr ()"
      and "retrieve (min_similarity d) (top_k d) (corpus d) (category_filter inp)
             (query_embedding inp) = []"
  shows "generateReflection d st u now inp
           = (st, (start_run u now inp)\<lparr>phase := Rejected no_grounding, steps_log := [''eligible'']\<rparr>)"
  using assms
  by (simp add: generateReflection_def five_steps start_run_def step_collecting_eligible
      step_eligible step_retrieving_empty step_rejected)

text \<open>A run on an eligible input with a grounding, up to the policy check.\<close>

lemma generate_policy:
  assumes "eligibility (contributing_entries inp) (span_days inp) = Inr ()"
      and "retrieve (min_similarity d) (top_k d) (corpus d) (category_filter inp)
             (query_embedding inp) = cs" and "cs \<noteq> []"
  shows "generateReflection d st u now inp
           = synth_step d (st, \<lparr>phase = PolicyChecked, run_user = u, run_now = now,
                 run_input = inp, retrieved = cs, draft = compose d inp cs,
                 steps_log = [''eligible'', ''retrieved'', ''composed'']\<rparr>)"
  using assms
  by (simp add: generateReflection_def five_steps start_run_def step_collecting_eligible
      step_eligible step_retrieving_found step_composing)

lemma generate_rate_limited:
  assumes "eligibility (contributing_entries inp) (span_days inp) = Inr ()"
      and "retrieve (min_similarity d) (top_k d) (corpus d) (category_filter inp)
             (query_embedding inp) \<noteq> []"
      and "2 \<le> accepted_since (reflections st) u (now - 7)"
  shows "fst (generateReflection d st u now inp) = st"
    and "phase (snd (generateReflection d st u now inp)) = Rejected rate_limited"
  using assms
  by (simp_all add: generate_policy step_policy_rejected policy_check_rate_limited)

lemma generate_emitted:
  assumes "eligibility (contributing_entries inp) (span_days inp) = Inr ()"
      and "retrieve (min_similarity d) (top_k d) (corpus d) (category_filter inp)
             (query_embedding inp) = cs" and "cs \<noteq> []"
      and "policy_check (allowed_lexicon d) (disallowed_lexicon d) (reflections st)
             u now (raw_confidence inp) (compose d inp cs) = Inr c"
  shows "fst (generateReflection d st u now inp)
           = persist d st \<lparr>phase = PolicyChecked, run_user = u, run_now = now,
                 run_input = inp, retrieved = cs, draft = compose d inp cs,
                 steps_log = [''eligible'', ''retrieved'', ''composed'', ''policy passed'']\<rparr> c"
    and "phase (snd (generateReflection d st u now inp)) = Emitted"
  using assms
  by (simp_all add: generate_policy step_policy_passed)

subsection \<open>Retrieval\<close>

lemma dedup_by_id_subset: "set (dedup_by_id seen xs) \<subseteq> set xs"
  by (induction seen xs rule: dedup_by_id.induct) auto

lemma retrieve_empty:
  assumes "\<forall>c \<in> set cps. cosine_similarity q (embedding c) < lo"
  shows "retrieve lo k cps cf q = []"
proof -
  have "filter (\<lambda>(i, s). lo \<le> s)
          (map (\<lambda>c. (concept_id c, cosine_similarity q (embedding c)))
             (filter (\<lambda>c. case cf of None \<Rightarrow> True | Some g \<Rightarrow> concept_category c = g) cps)) = []"
    using assms by (auto simp: filter_empty_conv)
  then show ?thesis by (simp add: retrieve_def)
qed

lemma retrieve_clears_floor:
  assumes "(i, s) \<in> set (retrieve lo k cps cf q)"
  shows "lo \<le> s"
proof -
  let ?cleared = "filter (\<lambda>(i, s). lo \<le> s)
          (map (\<lambda>c. (concept_id c, cosine_similarity q (embedding c)))
             (filter (\<lambda>c. case cf of None \<Rightarrow> True | Some g \<Rightarrow> concept_category c = g) cps))"
  have "(i, s) \<in> set (dedup_by_id [] (sort_key (\<lambda>(i, s). - s) ?cleared))"
    using assms by (auto simp: retrieve_def Let_def dest: in_set_takeD)
  then have "(i, s) \<in> set ?cleared"
    using dedup_by_id_subset by fastforce
  then show ?thesis by auto
qed

text \<open>
  Claim C7. When no concept of the corpus reaches the minimum similarity floor the
  retriever returns the empty list, and whatever it returns has cleared the floor; a run
  on an eligible input whose retrieval is empty ends in \<open>Rejected no_grounding\<close> and
  leaves the store as it was, so no reflection is emitted.
\<close>

theorem retrieval_fails_closed:
  "((\<forall>c \<in> set cps. cosine_similarity q (embedding c) < lo) \<longrightarrow>
       retrieve lo k cps cf q = [])
   \<and> ((i, s) \<in> set (retrieve lo k cps cf q) \<longrightarrow> lo \<le> s)
   \<and> (eligibility (contributing_entries inp) (span_days inp) = Inr ()
       \<and> retrieve (min_similarity d) (top_k d) (corpus d) (category_filter inp)
            (query_embedding inp) = []
       \<longrightarrow> phase (snd (generateReflection d st u now inp)) = Rejected no_grounding
           \<and> fst (generateReflection d st u now inp) = st)"
  using retrieve_empty [of cps q lo k cf] retrieve_clears_floor [of i s lo k cps cf q]
    generate_no_grounding [of inp d st u now]
  by auto

lemma demo_cosine_far:
  "cosine_similarity [- 1, 0] [1, 0] = - 1" "cosine_similarity [- 1, 0] [0, 1] = 0"
  by (simp_all add: cosine_similarity_def dot_def)

theorem retrieval_fails_closed_witness:
  "cosine_similarity [- 1, 0] [1, 0] < 0.5 \<and> cosine_similarity [- 1, 0] [0, 1] < 0.5
   \<and> retrieve 0.5 3 demo_corpus None [- 1, 0] = []
   \<and> eligibility [1, 2, 3] 7 = Inr ()
   \<and> phase (snd (generateReflection demo_deployment demo_store 1 9 demo_input_far))
       = Rejected no_grounding
   \<and> fst (generateReflection demo_deployment demo_store 1 9 demo_input_far) = demo_store
   \<and> (0, 1) \<in> set (retrieve 0.5 3 demo_corpus None [1, 0]) \<and> (0.5::real) \<le> 1"
proof -
  have far: "\<forall>c \<in> set demo_corpus. cosine_similarity [- 1, 0] (embedding c) < 0.5"
    by (simp add: demo_corpus_def demo_cosine_far)
  have empty: "retrieve 0.5 3 demo_corpus None [- 1, 0] = []"
    using retrieval_fails_closed [of demo_corpus "[- 1, 0]" "0.5" 3 None] far by blast
  have el: "eligibility (contributing_entries demo_input_far) (span_days demo_input_far) = Inr ()"
    by (simp add: demo_input_far_def demo_input_def eligibility_def)
  have r: "retrieve (min_similarity demo_deployment) (top_k demo_deployment)
             (corpus demo_deployment) (category_filter demo_input_far)
             (query_embedding demo_input_far) = []"
    using empty by (simp add: demo_deployment_def demo_input_far_def demo_input_def)
  have run: "phase (snd (generateReflection demo_deployment demo_store 1 9 demo_input_far))
       = Rejected no_grounding
   \<and> fst (generateReflection demo_deployment demo_store 1 9 demo_input_far) = demo_store"
    using retrieval_fails_closed [where inp = demo_input_far and d = demo_deployment and st = demo_store
        and u = 1 and now = 9] el r by blast
  have near: "(0, 1) \<in> set (retrieve 0.5 3 demo_corpus None [1, 0])"
    using demo_retrieve by (simp add: demo_deployment_def demo_input_def)
  from empty run near show ?thesis
    by (simp add: demo_cosine_far eligibility_def)
qed

subsection \<open>Eligibility\<close>

text \<open>
  Claim C3. The eligibility gate accepts exactly the candidates with at least 3
  contributing entries spanning at least 7 days: 2 entries over 10 days and 3 entries
  over 6 days are rejected, 3 entries over 7 days are accepted, and the first transition
  of a run moves to \<open>Eligible\<close> or \<open>Ineligible\<close> accordingly.
\<close>

theorem eligibility_gate:
  "(eligibility es sd = Inr () \<longleftrightarrow> 3 \<le> length es \<and> 7 \<le> sd)
   \<and> (eligibility es sd = Inl insufficient_evidence \<longleftrightarrow> \<not> (3 \<le> length es \<and> 7 \<le> sd))
   \<and> eligibility [e1, e2] 10 = Inl insufficient_evidence
   \<and> eligibility [e1, e2, e3] 6 = Inl insufficient_evidence
   \<and> eligibility [e1, e2, e3] 7 = Inr ()
   \<and> phase (snd (synth_step d (st, start_run u now inp)))
       = (if 3 \<le> length (contributing_entries inp) \<and> 7 \<le> span_days inp
          then Eligible else Ineligible)"
  by (simp add: eligibility_def synth_step_def start_run_def)

subsection \<open>The worked scenario, evaluated\<close>

lemma demo_confidence: "constrain_confidence 0.95 = 0.76"
  using constrain_confidence_high [of "0.95"] by simp

lemma demo_policy_empty:
  "policy_check (allowed_lexicon demo_deployment) (disallowed_lexicon demo_deployment) []
     1 0 (raw_confidence demo_input) (compose demo_deployment demo_input [(0, 1)]) = Inr 0.76"
  using demo_language demo_confidence
  by (simp add: policy_check_def rate_limit_def accepted_since_def demo_input_def
      demo_deployment_def demo_compose_def)

lemma demo_policy_one:
  "policy_check (allowed_lexicon demo_deployment) (disallowed_lexicon demo_deployment)
     [demo_reflection 0 0]
     1 1 (raw_confidence demo_input) (compose demo_deployment demo_input [(0, 1)]) = Inr 0.76"
  using demo_language demo_confidence
  by (simp add: policy_check_def rate_limit_def accepted_since_def demo_input_def
      demo_deployment_def demo_compose_def demo_reflection_def)

lemma demo_first:
  "fst (generateReflection demo_deployment empty_store 1 0 demo_input)
     = \<lparr>reflections = [demo_reflection 0 0], audit_traces = [demo_trace 0]\<rparr>"
  using generate_emitted(1) [OF demo_eligible demo_retrieve, of empty_store 1 0 "0.76"]
    demo_policy_empty
  by (simp add: empty_store_def persist_def demo_reflection_def demo_trace_def
      demo_deployment_def demo_input_def demo_compose_def)

lemma demo_second:
  "fst (generateReflection demo_deployment
          \<lparr>reflections = [demo_reflection 0 0], audit_traces = [demo_trace 0]\<rparr> 1 1 demo_input)
     = demo_store"
  using generate_emitted(1) [OF demo_eligible demo_retrieve,
      of "\<lparr>reflections = [demo_reflection 0 0], audit_traces = [demo_trace 0]\<rparr>" 1 1 "0.76"]
    demo_policy_one
  by (simp add: demo_store_def persist_def demo_reflection_def demo_trace_def
      demo_deployment_def demo_input_def demo_compose_def)

lemma demo_reachable:
  "run_operations demo_deployment empty_store [Generate 1 0 demo_input, Generate 1 1 demo_input]
     = demo_store"
  by (simp only: run_operations.simps apply_operation.simps demo_first demo_second)

lemma demo_since: "accepted_since (reflections demo_store) 1 (2 - 7) = 2"
  by (simp add: demo_store_def demo_reflection_def accepted_since_def)

lemma demo_dismiss:
  "dismissReflection demo_store 1 0 (3 / 2)
     = Inr \<lparr>reflections = [(demo_reflection 0 0)\<lparr>dismissed_at := Some (3 / 2)\<rparr>, demo_reflection 1 1],
            audit_traces = [demo_trace 0, demo_trace 1]\<rparr>"
  by (simp add: dismissReflection_def demo_store_def demo_reflection_def)

text \<open>
  Claim C4. In every reachable state, no user has more than 2 accepted reflections in
  any 7-day window. Once 2 reflections of the user lie within the 7 days that end now,
  the policy check answers \<open>rate_limited\<close> whatever the candidate's raw confidence and
  prose, a run of that user emits nothing and leaves the store unchanged however far it
  gets, and a complete run on an eligible, grounded input ends in
  \<open>Rejected rate_limited\<close>. A dismissal removes no row and changes none of these counts.
\<close>

theorem rate_limit_window_bound:
  "accepted_in_window (reflections (run_operations d empty_store ops)) u w \<le> 2
   \<and> (2 \<le> accepted_since rs u (now - 7) \<longrightarrow>
        policy_check A D rs u now raw prose = Inl rate_limited)
   \<and> (2 \<le> accepted_since (reflections st) u (now - 7) \<longrightarrow>
        fst (run_steps d n (st, start_run u now inp)) = st
        \<and> phase (snd (run_steps d n (st, start_run u now inp))) \<noteq> Emitted)
   \<and> (2 \<le> accepted_since (reflections st) u (now - 7)
        \<and> eligibility (contributing_entries inp) (span_days inp) = Inr ()
        \<and> retrieve (min_similarity d) (top_k d) (corpus d) (category_filter inp)
             (query_embedding inp) \<noteq> [] \<longrightarrow>
        phase (snd (generateReflection d st u now inp)) = Rejected rate_limited)
   \<and> (dismissReflection st v rid t = Inr st' \<longrightarrow>
        length (reflections st') = length (reflections st)
        \<and> accepted_since (reflections st') u (now - 7) = accepted_since (reflections st) u (now - 7)
        \<and> accepted_in_window (reflections st') u w = accepted_in_window (reflections st) u w)"
proof (intro conjI impI)
  show "accepted_in_window (reflections (run_operations d empty_store ops)) u w \<le> 2"
    by (rule reachable_window)
next
  assume "2 \<le> accepted_since rs u (now - 7)"
  then show "policy_check A D rs u now raw prose = Inl rate_limited"
    by (rule policy_check_rate_limited)
next
  assume full: "2 \<le> accepted_since (reflections st) u (now - 7)"
  have no: "phase (snd (run_steps d n (st, start_run u now inp))) \<noteq> Emitted"
  proof
    assume "phase (snd (run_steps d n (st, start_run u now inp))) = Emitted"
    with run_steps_store [of d n st u now inp]
    obtain r :: run and c where "policy_check (allowed_lexicon d) (disallowed_lexicon d) (reflections st)
                   u now (raw_confidence inp) (draft r) = Inr c"
      by auto
    with full show False by (simp add: policy_check_rate_limited)
  qed
  then show "fst (run_steps d n (st, start_run u now inp)) = st"
    using run_steps_store [of d n st u now inp] by auto
  show "phase (snd (run_steps d n (st, start_run u now inp))) \<noteq> Emitted" by (rule no)
next
  assume "2 \<le> accepted_since (reflections st) u (now - 7)
        \<and> eligibility (contributing_entries inp) (span_days inp) = Inr ()
        \<and> retrieve (min_similarity d) (top_k d) (corpus d) (category_filter inp)
             (query_embedding inp) \<noteq> []"
  then show "phase (snd (generateReflection d st u now inp)) = Rejected rate_limited"
    by (simp add: generate_rate_limited)
next
  assume dis: "dismissReflection st v rid t = Inr st'"
  show "length (reflections st') = length (reflections st)"
    using dismiss_ids(5) [OF dis] .
  show "accepted_since (reflections st') u (now - 7) = accepted_since (reflections st) u (now - 7)"
    using dismiss_window(2) [OF dis] .
  show "accepted_in_window (reflections st') u w = accepted_in_window (reflections st) u w"
    using dismiss_window(1) [OF dis] .
qed

theorem rate_limit_window_bound_witness:
  "run_operations demo_deployment empty_store [Generate 1 0 demo_input, Generate 1 1 demo_input]
     = demo_store
   \<and> accepted_in_window (reflections demo_store) 1 0 = 2
   \<and> accepted_since (reflections demo_store) 1 (2 - 7) = 2
   \<and> policy_check [''may suggest''] [''disorder''] (reflections demo_store) 1 2 0.3
        ''This resembles a weekly rhythm.'' = Inl rate_limited
   \<and> fst (run_steps demo_deployment 5 (demo_store, start_run 1 2 demo_input)) = demo_store
   \<and> phase (snd (generateReflection demo_deployment demo_store 1 2 demo_input))
        = Rejected rate_limited
   \<and> dismissReflection demo_store 1 0 (3 / 2)
        = Inr \<lparr>reflections = [(demo_reflection 0 0)\<lparr>dismissed_at := Some (3 / 2)\<rparr>,
                               demo_reflection 1 1],
               audit_traces = [demo_trace 0, demo_trace 1]\<rparr>
   \<and> accepted_since [(demo_reflection 0 0)\<lparr>dismissed_at := Some (3 / 2)\<rparr>, demo_reflection 1 1]
        1 (2 - 7) = 2"
proof -
  have nonempty: "retrieve (min_similarity demo_deployment) (top_k demo_deployment)
     (corpus demo_deployment) (category_filter demo_input) (query_embedding demo_input) \<noteq> []"
    by (simp add: demo_retrieve)
  have win: "accepted_in_window (reflections demo_store) 1 0 = 2"
    by (simp add: demo_store_def demo_reflection_def accepted_in_window_def)
  note at_demo = rate_limit_window_bound [where d = demo_deployment and st = demo_store and u = 1 and now = 2
      and inp = demo_input and n = 5 and rs = "reflections demo_store"
      and A = "[''may suggest'']" and D = "[''disorder'']" and raw = "0.3"
      and prose = "''This resembles a weekly rhythm.''" and v = 1 and rid = 0 and t = "3 / 2"
      and st' = "\<lparr>reflections = [(demo_reflection 0 0)\<lparr>dismissed_at := Some (3 / 2)\<rparr>,
                               demo_reflection 1 1],
               audit_traces = [demo_trace 0, demo_trace 1]\<rparr>"
      and ops = "[Generate 1 0 demo_input, Generate 1 1 demo_input]" and w = 0]
  from at_demo demo_since demo_eligible nonempty demo_dismiss demo_reachable win
  show ?thesis by simp
qed

theorem reflection_iff_audit_trace_witness:
  "run_operations demo_deployment empty_store
      [Generate 1 0 demo_input, Generate 1 1 demo_input] = demo_store
   \<and> map refl_id (reflections demo_store) = [0, 1]
   \<and> map trace_reflection_id (audit_traces demo_store) = [0, 1]
   \<and> phase (snd (run_steps demo_deployment 3 (demo_store, start_run 1 2 demo_input)))
        = Composing
   \<and> fst (run_steps demo_deployment 3 (demo_store, start_run 1 2 demo_input)) = demo_store
   \<and> phase (snd (run_steps demo_deployment 5 (empty_store, start_run 1 0 demo_input)))
        = Emitted
   \<and> length (reflections (fst (run_steps demo_deployment 5
         (empty_store, start_run 1 0 demo_input)))) = 1
   \<and> length (audit_traces (fst (run_steps demo_deployment 5
         (empty_store, start_run 1 0 demo_input)))) = 1"
proof -
  have three: "run_steps demo_deployment 3 (demo_store, start_run 1 2 demo_input)
     = (demo_store, \<lparr>phase = Composing, run_user = 1, run_now = 2, run_input = demo_input,
          retrieved = [(0, 1)], draft = [], steps_log = [''eligible'', ''retrieved'']\<rparr>)"
    using demo_eligible demo_retrieve
    by (simp add: eval_nat_numeral start_run_def step_collecting_eligible step_eligible
        step_retrieving_found)
  have emitted: "phase (snd (run_steps demo_deployment 5 (empty_store, start_run 1 0 demo_input)))
        = Emitted"
    using generate_emitted(2) [OF demo_eligible demo_retrieve, of empty_store 1 0 "0.76"]
      demo_policy_empty
    by (simp add: generateReflection_def empty_store_def)
  note a = reflection_iff_audit_trace [where d = demo_deployment
      and ops = "[Generate 1 0 demo_input, Generate 1 1 demo_input]" and i = 1
      and n = 3 and st = demo_store and u = 1 and now = 2 and inp = demo_input]
  note b = reflection_iff_audit_trace [where d = demo_deployment
      and ops = "[]" and i = 0
      and n = 5 and st = empty_store and u = 1 and now = 0 and inp = demo_input]
  from a b three emitted demo_reachable show ?thesis
    by (simp add: demo_store_def demo_reflection_def demo_trace_def empty_store_def)
qed

subsection \<open>Persisted rows and the table constraints\<close>

lemma policy_check_confidence:
  "policy_check A D rs u now raw prose = Inr c \<Longrightarrow> c = constrain_confidence raw"
  by (auto simp: policy_check_def Let_def split: sum.splits)

lemma eligibility_length:
  "eligibility es sd = Inr () \<Longrightarrow> 3 \<le> length es"
  by (auto simp: eligibility_def split: if_splits)

lemma row_checks_iff:
  "check_confidence_score r \<and> check_min_entries r \<longleftrightarrow>
     confidence_score r \<le> 0.80 \<and> (entry_ids r = [] \<or> 3 \<le> length (entry_ids r))"
  by (auto simp: check_confidence_score_def check_min_entries_def array_length_def)

lemma persist_rows:
  assumes "\<forall>x \<in> set (reflections st). confidence_score x \<le> 0.80 \<and> 3 \<le> length (entry_ids x)"
      and "c \<le> 0.80" and "3 \<le> length (contributing_entries (run_input r))"
  shows "\<forall>x \<in> set (reflections (persist d st r c)).
           confidence_score x \<le> 0.80 \<and> 3 \<le> length (entry_ids x)"
  using assms by (auto simp: persist_def Let_def)

lemma run_steps_rows:
  assumes "\<forall>x \<in> set (reflections st). confidence_score x \<le> 0.80 \<and> 3 \<le> length (entry_ids x)"
  shows "\<forall>x \<in> set (reflections (fst (run_steps d n (st, start_run u now inp)))).
           confidence_score x \<le> 0.80 \<and> 3 \<le> length (entry_ids x)"
proof (cases "phase (snd (run_steps d n (st, start_run u now inp))) = Emitted")
  case False
  with run_steps_store [of d n st u now inp] assms show ?thesis by auto
next
  case True
  with run_steps_store [of d n st u now inp]
  obtain r :: run and c where r: "run_input r = inp"
      and pc: "policy_check (allowed_lexicon d) (disallowed_lexicon d) (reflections st)
                   u now (raw_confidence inp) (draft r) = Inr c"
      and el: "eligibility (contributing_entries inp) (span_days inp) = Inr ()"
      and st: "fst (run_steps d n (st, start_run u now inp)) = persist d st r c"
    by auto
  have "c \<le> 0.80"
    using policy_check_confidence [OF pc] constrain_confidence_le_cap by simp
  moreover have "3 \<le> length (contributing_entries (run_input r))"
    using eligibility_length [OF el] r by simp
  ultimately show ?thesis unfolding st using assms by (intro persist_rows)
qed

lemma apply_operation_rows:
  assumes "\<forall>x \<in> set (reflections st). confidence_score x \<le> 0.80 \<and> 3 \<le> length (entry_ids x)"
  shows "\<forall>x \<in> set (reflections (apply_operation d st op)).
           confidence_score x \<le> 0.80 \<and> 3 \<le> length (entry_ids x)"
proof (cases op)
  case (Generate u now inp)
  then show ?thesis using run_steps_rows [OF assms, of d 5 u now inp]
    by (simp add: generateReflection_def)
next
  case (Cancelled u now inp n)
  then show ?thesis using run_steps_rows [OF assms, of d n u now inp] by simp
next
  case (Dismiss u rid t)
  then show ?thesis using assms
    by (auto simp: dismissReflection_def split: if_splits)
qed

lemma run_operations_rows:
  assumes "\<forall>x \<in> set (reflections st). confidence_score x \<le> 0.80 \<and> 3 \<le> length (entry_ids x)"
  shows "\<forall>x \<in> set (reflections (run_operations d st ops)).
           confidence_score x \<le> 0.80 \<and> 3 \<le> length (entry_ids x)"
  using assms
proof (induction ops arbitrary: st)
  case Nil
  then show ?case by simp
next
  case (Cons op ops)
  have "\<forall>x \<in> set (reflections (apply_operation d st op)).
           confidence_score x \<le> 0.80 \<and> 3 \<le> length (entry_ids x)"
    using Cons.prems by (rule apply_operation_rows)
  then have "\<forall>x \<in> set (reflections (run_operations d (apply_operation d st op) ops)).
           confidence_score x \<le> 0.80 \<and> 3 \<le> length (entry_ids x)"
    by (rule Cons.IH)
  then show ?case by (simp only: run_operations.simps)
qed

lemma reachable_rows_pass_checks:
  assumes "x \<in> set (reflections (run_operations d empty_store ops))"
  shows "check_confidence_score x \<and> check_min_entries x"
proof -
  have "\<forall>x \<in> set (reflections (run_operations d empty_store ops)).
           confidence_score x \<le> 0.80 \<and> 3 \<le> length (entry_ids x)"
    by (rule run_operations_rows) (simp add: empty_store_def)
  with assms show ?thesis unfolding row_checks_iff by blast
qed

text \<open>The entry-count constraint alone does not exclude a row with no entry at all.\<close>

lemma check_min_entries_empty: "check_min_entries (r\<lparr>entry_ids := []\<rparr>)"
  by (simp add: check_min_entries_def array_length_def)

end
